theory Spec2Isabelle
  imports Complex_Main
begin

section \<open>Python values used by scraping\_weather.py\<close>

text \<open>
  A Python \<^verbatim>\<open>str\<close> is a sequence of Unicode code points, so it is modelled as a list of
  naturals; \<open>len\<close> is \<open>length\<close>. ASCII literals of the source are written through
  \<open>str\<close>, which maps every character of a HOL string to its code.
\<close>

type_synonym pystr = "nat list"

definition str :: "string \<Rightarrow> pystr" where
  "str cs = map of_char cs"

text \<open>
  A \<^verbatim>\<open>float\<close> is an IEEE binary64 value. \<open>Finite q\<close> stands for the binary64 number
  nearest to the rational \<open>q\<close>: rounding inside the finite range and the sign of a zero are
  not represented, the two infinities and NaN are.
\<close>

datatype pyfloat = Finite rat | PosInf | NegInf | NaN

text \<open>
  A \<^verbatim>\<open>datetime.date\<close> carries year, month and day and compares as that triple.
\<close>

datatype date = Date (year: nat) (month: nat) (day: nat)

text \<open>The values that end up in a row handed to \<^verbatim>\<open>csv.writer.writerow\<close>.\<close>

datatype pyval = PyNone | PyStr pystr | PyInt int | PyFloat pyfloat | PyDate date

text \<open>
  The exceptions that can leave a function of the program. \<open>URLError\<close> stands for whatever
  \<^verbatim>\<open>urllib.request.urlopen\<close> raises when the resource cannot be fetched.
\<close>

datatype error = URLError | AttributeError | IndexError | OverflowError | ValueError

section \<open>select\_weather\_observatory\<close>

text \<open>
  \<^verbatim>\<open>
  if len(block_no) == 5:   facility_type = "s1"
  elif len(block_no) == 4: facility_type = "a1"
  else:
      print(...); print(...)
      return # stop
  return facility_type
  \<close>
  The bare \<^verbatim>\<open>return\<close> hands \<^verbatim>\<open>None\<close> to the caller; the two printed lines go to the console,
  which is not part of the model.
\<close>

definition select_weather_observatory :: "pystr \<Rightarrow> pystr option" where
  "select_weather_observatory block_no =
     (if length block_no = 5 then Some (str ''s1'')
      else if length block_no = 4 then Some (str ''a1'')
      else None)"

section \<open>The builtin float on a str\<close>

text \<open>
  \<^verbatim>\<open>float(s)\<close> first maps every non-ASCII white space of \<open>s\<close> to a blank and every non-ASCII
  decimal digit to its ASCII digit; any other non-ASCII code point makes the conversion
  fail. The decimal digits of Unicode 14.0 (the \<^verbatim>\<open>unicodedata\<close> of CPython 3.11) come in
  66 runs of ten, listed by their first code point.
\<close>

definition decimal_runs :: "nat list" where
  "decimal_runs =
     [48, 1632, 1776, 1984, 2406, 2534, 2662, 2790, 2918, 3046, 3174, 3302, 3430, 3558,
      3664, 3792, 3872, 4160, 4240, 6112, 6160, 6470, 6608, 6784, 6800, 6992, 7088, 7232,
      7248, 42528, 43216, 43264, 43472, 43504, 43600, 44016, 65296, 66720, 68912, 69734,
      69872, 69942, 70096, 70384, 70736, 70864, 71248, 71360, 71472, 71904, 72016, 72784,
      73040, 73120, 92768, 92864, 93008, 120782, 120792, 120802, 120812, 120822, 123200,
      123632, 125264, 130032]"

definition unicode_decimal :: "nat \<Rightarrow> nat option" where
  "unicode_decimal c =
     (case filter (\<lambda>z. z \<le> c \<and> c < z + 10) decimal_runs of
        [] \<Rightarrow> None
      | z # _ \<Rightarrow> Some (c - z))"

definition unicode_space :: "nat \<Rightarrow> bool" where
  "unicode_space c \<longleftrightarrow>
     c \<in> set [133, 160, 5760, 8192, 8193, 8194, 8195, 8196, 8197, 8198, 8199, 8200,
               8201, 8202, 8232, 8233, 8239, 8287, 12288]"

definition to_ascii :: "nat \<Rightarrow> nat option" where
  "to_ascii c =
     (if c < 127 then Some c
      else if unicode_space c then Some 32
      else (case unicode_decimal c of None \<Rightarrow> None | Some d \<Rightarrow> Some (48 + d)))"

fun transform_to_ascii :: "pystr \<Rightarrow> pystr option" where
  "transform_to_ascii [] = Some []"
| "transform_to_ascii (c # cs) =
     (case to_ascii c of
        None \<Rightarrow> None
      | Some a \<Rightarrow> (case transform_to_ascii cs of None \<Rightarrow> None | Some as \<Rightarrow> Some (a # as)))"

text \<open>The blanks stripped from both ends: tab, line feed, vertical tab, form feed, return, space.\<close>

definition ascii_space :: "nat \<Rightarrow> bool" where
  "ascii_space c \<longleftrightarrow> (9 \<le> c \<and> c \<le> 13) \<or> c = 32"

definition strip :: "pystr \<Rightarrow> pystr" where
  "strip cs = rev (dropWhile ascii_space (rev (dropWhile ascii_space cs)))"

definition is_digit :: "nat \<Rightarrow> bool" where
  "is_digit c \<longleftrightarrow> 48 \<le> c \<and> c \<le> 57"

text \<open>
  An underscore is accepted only directly between two digits, and is then dropped.
  \<open>prev\<close> is the code point before the one looked at (0 at the start).
\<close>

fun drop_underscores :: "nat \<Rightarrow> pystr \<Rightarrow> pystr option" where
  "drop_underscores prev [] = (if prev = 95 then None else Some [])"
| "drop_underscores prev (c # cs) =
     (if c = 95 then
        (if is_digit prev then drop_underscores c cs else None)
      else if prev = 95 \<and> \<not> is_digit c then None
      else (case drop_underscores c cs of None \<Rightarrow> None | Some r \<Rightarrow> Some (c # r)))"

definition lower :: "nat \<Rightarrow> nat" where
  "lower c = (if 65 \<le> c \<and> c \<le> 90 then c + 32 else c)"

fun digits_value :: "nat \<Rightarrow> pystr \<Rightarrow> nat" where
  "digits_value acc [] = acc"
| "digits_value acc (c # cs) = digits_value (10 * acc + (c - 48)) cs"

text \<open>\<open>m \<times> 10\<^sup>e\<close> as a rational.\<close>

definition scale10 :: "nat \<Rightarrow> int \<Rightarrow> rat" where
  "scale10 m e = (if 0 \<le> e then of_nat m * 10 ^ nat e else of_nat m / 10 ^ nat (- e))"

text \<open>
  A magnitude of at least \<open>2\<^sup>1\<^sup>0\<^sup>2\<^sup>4 - 2\<^sup>9\<^sup>7\<^sup>0\<close> (half way between the largest binary64 number and
  \<open>2\<^sup>1\<^sup>0\<^sup>2\<^sup>4\<close>) rounds to an infinity: \<^verbatim>\<open>float("1e400")\<close> is \<^verbatim>\<open>inf\<close>, not an error.
\<close>

definition round_float :: "bool \<Rightarrow> rat \<Rightarrow> pyfloat" where
  "round_float negative q =
     (if 2 ^ 1024 - 2 ^ 970 \<le> q then (if negative then NegInf else PosInf)
      else Finite (if negative then - q else q))"

text \<open>The exponent part: empty, or \<open>e\<close>/\<open>E\<close>, an optional sign and at least one digit.\<close>

definition parse_exponent :: "pystr \<Rightarrow> int option" where
  "parse_exponent cs =
     (case cs of
        [] \<Rightarrow> Some 0
      | c # r \<Rightarrow>
          if lower c = 101 then
            (let neg = (case r of s # _ \<Rightarrow> s = 45 | [] \<Rightarrow> False);
                 ds = (case r of s # t \<Rightarrow> if s = 43 \<or> s = 45 then t else r | [] \<Rightarrow> r)
             in if ds \<noteq> [] \<and> list_all is_digit ds
                then Some (if neg then - int (digits_value 0 ds) else int (digits_value 0 ds))
                else None)
          else None)"

text \<open>
  The unsigned part: \<open>inf\<close>, \<open>infinity\<close> or \<open>nan\<close> in any letter case, or digits with an
  optional point and exponent, with at least one digit before or after the point.
\<close>

definition parse_unsigned :: "bool \<Rightarrow> pystr \<Rightarrow> pyfloat option" where
  "parse_unsigned negative cs =
     (if map lower cs = str ''inf'' \<or> map lower cs = str ''infinity''
      then Some (if negative then NegInf else PosInf)
      else if map lower cs = str ''nan'' then Some NaN
      else
        (let ip = takeWhile is_digit cs;
             r1 = dropWhile is_digit cs;
             fp = (case r1 of c # t \<Rightarrow> if c = 46 then takeWhile is_digit t else [] | [] \<Rightarrow> []);
             r2 = (case r1 of c # t \<Rightarrow> if c = 46 then dropWhile is_digit t else r1 | [] \<Rightarrow> [])
         in if ip = [] \<and> fp = [] then None
            else (case parse_exponent r2 of
                    None \<Rightarrow> None
                  | Some e \<Rightarrow>
                      Some (round_float negative
                              (scale10 (digits_value 0 (ip @ fp)) (e - int (length fp)))))))"

definition py_float :: "pystr \<Rightarrow> error + pyfloat" where
  "py_float s =
     (case transform_to_ascii s of
        None \<Rightarrow> Inl ValueError
      | Some a \<Rightarrow>
          (case drop_underscores 0 (strip a) of
             None \<Rightarrow> Inl ValueError
           | Some cs \<Rightarrow>
               (let negative = (case cs of c # _ \<Rightarrow> c = 45 | [] \<Rightarrow> False);
                    body = (case cs of c # t \<Rightarrow> if c = 43 \<or> c = 45 then t else cs | [] \<Rightarrow> cs)
                in case parse_unsigned negative body of
                     None \<Rightarrow> Inl ValueError
                   | Some f \<Rightarrow> Inr f)))"

section \<open>string\_to\_float\<close>

text \<open>
  \<^verbatim>\<open>
  try:    return float(weather_data)
  except: return 0
  \<close>
  The fallback is the integer literal \<^verbatim>\<open>0\<close>, an \<^verbatim>\<open>int\<close>.
\<close>

definition string_to_float :: "pystr \<Rightarrow> pyval" where
  "string_to_float weather_data =
     (case py_float weather_data of
        Inr f \<Rightarrow> PyFloat f
      | Inl _ \<Rightarrow> PyInt 0)"

section \<open>datetime.date\<close>

text \<open>\<^verbatim>\<open>date <= end_date\<close> compares year, then month, then day.\<close>

definition date_le :: "date \<Rightarrow> date \<Rightarrow> bool" where
  "date_le a b \<longleftrightarrow>
     year a < year b \<or>
     (year a = year b \<and> (month a < month b \<or> (month a = month b \<and> day a \<le> day b)))"

definition date_lt :: "date \<Rightarrow> date \<Rightarrow> bool" where
  "date_lt a b \<longleftrightarrow> date_le a b \<and> a \<noteq> b"

definition is_leap :: "nat \<Rightarrow> bool" where
  "is_leap y \<longleftrightarrow> y mod 4 = 0 \<and> (y mod 100 \<noteq> 0 \<or> y mod 400 = 0)"

definition days_in_month :: "nat \<Rightarrow> nat \<Rightarrow> nat" where
  "days_in_month y m =
     (if m = 2 then (if is_leap y then 29 else 28)
      else if m = 4 \<or> m = 6 \<or> m = 9 \<or> m = 11 then 30
      else 31)"

text \<open>The dates \<^verbatim>\<open>datetime.date(y, m, d)\<close> can construct: 0001-01-01 to 9999-12-31.\<close>

definition valid_date :: "date \<Rightarrow> bool" where
  "valid_date d \<longleftrightarrow>
     1 \<le> year d \<and> year d \<le> 9999 \<and> 1 \<le> month d \<and> month d \<le> 12 \<and>
     1 \<le> day d \<and> day d \<le> days_in_month (year d) (month d)"

text \<open>
  \<^verbatim>\<open>date + datetime.timedelta(1)\<close>: the next calendar day; past 9999-12-31 it raises
  \<^verbatim>\<open>OverflowError\<close>.
\<close>

definition add_one_day :: "date \<Rightarrow> error + date" where
  "add_one_day d =
     (if day d < days_in_month (year d) (month d) then Inr (Date (year d) (month d) (day d + 1))
      else if month d < 12 then Inr (Date (year d) (month d + 1) 1)
      else if year d < 9999 then Inr (Date (year d + 1) 1 1)
      else Inl OverflowError)"

section \<open>The target url\<close>

text \<open>\<^verbatim>\<open>str(n)\<close> of a non-negative integer, as an f-string prints \<^verbatim>\<open>date.year\<close>.\<close>

function str_nat :: "nat \<Rightarrow> pystr" where
  "str_nat n = (if n < 10 then [48 + n] else str_nat (n div 10) @ [48 + n mod 10])"
  by pat_completeness auto
termination
  by (relation "measure (\<lambda>n. n)") auto

text \<open>An f-string prints \<^verbatim>\<open>None\<close> as the four letters.\<close>

definition format_value :: "pystr option \<Rightarrow> pystr" where
  "format_value v = (case v of None \<Rightarrow> str ''None'' | Some s \<Rightarrow> s)"

definition target_url :: "pystr option \<Rightarrow> pystr \<Rightarrow> pystr \<Rightarrow> date \<Rightarrow> pystr" where
  "target_url facility_type prec_no block_no date =
     str ''https://www.data.jma.go.jp/obd/stats/etrn/view/hourly_'' @ format_value facility_type
     @ str ''.php?'' @ str ''prec_no='' @ prec_no @ str ''&block_no='' @ block_no
     @ str ''&year='' @ str_nat (year date) @ str ''&month='' @ str_nat (month date)
     @ str ''&day='' @ str_nat (day date) @ str ''&view=''"

section \<open>scraping\_day\_per\_hour\<close>

text \<open>
  What the function sees of the remote site. A cell is the value of \<^verbatim>\<open>td.string\<close>: the
  text of the cell, or \<open>None\<close> when the cell has no single text child, as an empty cell
  \<^verbatim>\<open><td></td>\<close> has none. A row is the list \<^verbatim>\<open>tr.findAll('td')\<close>. A response is either a failed
  fetch, or a document with the rows \<^verbatim>\<open>trs.findAll('tr')\<close> of its first table of class
  \<^verbatim>\<open>data2_s\<close>, \<open>None\<close> when \<^verbatim>\<open>soup.find\<close> finds no such table.
\<close>

type_synonym td = "pystr option"

type_synonym tr = "td list"

datatype response = Unreachable | Document "tr list option"

text \<open>\<^verbatim>\<open>xs[i]\<close> for a constant \<open>i \<ge> 0\<close>.\<close>

definition item :: "'a list \<Rightarrow> nat \<Rightarrow> error + 'a" where
  "item xs i = (if i < length xs then Inr (xs ! i) else Inl IndexError)"

definition string_value :: "td \<Rightarrow> pyval" where
  "string_value c = (case c of None \<Rightarrow> PyNone | Some text \<Rightarrow> PyStr text)"

text \<open>
  The body of one branch of the row loop, for the cell index \<open>i\<close> of that branch:
  \<^verbatim>\<open>
  if tds[i].string == None: break
  data_list.append(date)
  data_list.append(tds[0].string)
  data_list.append(string_to_float(tds[i].string))
  \<close>
  \<open>Inr None\<close> is the \<^verbatim>\<open>break\<close>, \<open>Inr (Some data_list)\<close> the finished row.
\<close>

definition read_row :: "date \<Rightarrow> tr \<Rightarrow> nat \<Rightarrow> error + pyval list option" where
  "read_row date tds i =
     (case item tds i of
        Inl e \<Rightarrow> Inl e
      | Inr c \<Rightarrow>
          (case c of
             None \<Rightarrow> Inr None
           | Some text \<Rightarrow>
               (case item tds 0 of
                  Inl e \<Rightarrow> Inl e
                | Inr h \<Rightarrow> Inr (Some [PyDate date, string_value h, string_to_float text]))))"

text \<open>
  \<^verbatim>\<open>for tr in trs.findAll('tr')[2:]\<close>, with \<open>data_list_per_hour\<close> as the accumulator. A
  \<open>facility_type\<close> that is neither \<^verbatim>\<open>"s1"\<close> nor \<^verbatim>\<open>"a1"\<close> takes neither branch and goes on to
  the next row.
\<close>

fun rows_loop :: "date \<Rightarrow> pystr option \<Rightarrow> tr list \<Rightarrow> pyval list list \<Rightarrow> error + pyval list list" where
  "rows_loop date facility_type [] data_list_per_hour = Inr data_list_per_hour"
| "rows_loop date facility_type (tds # trs) data_list_per_hour =
     (if facility_type = Some (str ''s1'') then
        (case read_row date tds 3 of
           Inl e \<Rightarrow> Inl e
         | Inr None \<Rightarrow> Inr data_list_per_hour
         | Inr (Some data_list) \<Rightarrow>
             rows_loop date facility_type trs (data_list_per_hour @ [data_list]))
      else if facility_type = Some (str ''a1'') then
        (case read_row date tds 1 of
           Inl e \<Rightarrow> Inl e
         | Inr None \<Rightarrow> Inr data_list_per_hour
         | Inr (Some data_list) \<Rightarrow>
             rows_loop date facility_type trs (data_list_per_hour @ [data_list]))
      else rows_loop date facility_type trs data_list_per_hour)"

text \<open>
  \<open>web\<close> answers every url. A failed \<^verbatim>\<open>urlopen\<close> raises; a document without the table makes
  \<^verbatim>\<open>trs.findAll\<close> raise \<^verbatim>\<open>AttributeError\<close> on \<^verbatim>\<open>None\<close>; the slice \<^verbatim>\<open>[2:]\<close> never raises.
\<close>

definition scraping_day_per_hour ::
    "(pystr \<Rightarrow> response) \<Rightarrow> pystr \<Rightarrow> date \<Rightarrow> pystr option \<Rightarrow> error + pyval list list" where
  "scraping_day_per_hour web url date facility_type =
     (case web url of
        Unreachable \<Rightarrow> Inl URLError
      | Document None \<Rightarrow> Inl AttributeError
      | Document (Some trs) \<Rightarrow> rows_loop date facility_type (drop 2 trs) [])"

section \<open>create\_csv\_hour\<close>

text \<open>
  The observable state of a run: the rows written to the file so far, whether the file has
  been closed, the urls fetched, the seconds slept, and the exception that ended the run,
  if any. Console output and the elapsed-time report are not modelled.
\<close>

record run =
  written :: "pyval list list"
  closed :: bool
  fetched :: "pystr list"
  slept :: nat
  raised :: "error option"

text \<open>The header \<^verbatim>\<open>fields\<close>: three Japanese labels, given by their code points.\<close>

definition fields :: "pyval list" where
  "fields = [PyStr [24180, 26376, 26085], PyStr [26178, 38291], PyStr [38477, 27700, 37327]]"

text \<open>A number that every step to the next day lowers, so the loop ends.\<close>

definition date_measure :: "date \<Rightarrow> nat" where
  "date_measure d = (9999 - year d) * 416 + (12 - month d) * 32 + (31 - day d)"

text \<open>
  \<^verbatim>\<open>
  while date <= end_date:
      time.sleep(1)
      url = f"..."
      data_per_day = scraping_day_per_hour(url, date, facility_type)
      for dpd in data_per_day: writer.writerow(dpd)
      date += datetime.timedelta(1)
  \<close>
  An exception leaves the loop at once, with the state reached so far.
\<close>

function date_loop ::
    "(pystr \<Rightarrow> response) \<Rightarrow> pystr option \<Rightarrow> pystr \<Rightarrow> pystr \<Rightarrow> date \<Rightarrow> date \<Rightarrow> run \<Rightarrow> run" where
  "date_loop web facility_type prec_no block_no date end_date f =
     (if date_le date end_date then
        (let f1 = f\<lparr>slept := slept f + 1\<rparr>;
             url = target_url facility_type prec_no block_no date;
             f2 = f1\<lparr>fetched := fetched f1 @ [url]\<rparr>
         in case scraping_day_per_hour web url date facility_type of
              Inl e \<Rightarrow> f2\<lparr>raised := Some e\<rparr>
            | Inr data_per_day \<Rightarrow>
                (let f3 = f2\<lparr>written := written f2 @ data_per_day\<rparr>
                 in case add_one_day date of
                      Inl e \<Rightarrow> f3\<lparr>raised := Some e\<rparr>
                    | Inr date' \<Rightarrow>
                        date_loop web facility_type prec_no block_no date' end_date f3))
      else f)"
  by pat_completeness auto
termination
  by (relation "measure (\<lambda>(web, facility_type, prec_no, block_no, date, end_date, f). date_measure date)")
     (auto simp: add_one_day_def date_measure_def days_in_month_def split: if_splits)

text \<open>
  The part of \<open>create_csv_hour\<close> from the classification of the station on, for the two
  dates already built from the user's input. The \<^verbatim>\<open>with open(...) as f\<close> statement closes the
  file when its block is left, by the end of the loop or by an exception.
\<close>

definition create_csv_hour ::
    "(pystr \<Rightarrow> response) \<Rightarrow> pystr \<Rightarrow> pystr \<Rightarrow> date \<Rightarrow> date \<Rightarrow> run" where
  "create_csv_hour web prec_no block_no start_date end_date =
     (let facility_type = select_weather_observatory block_no;
          f = \<lparr>written = [], closed = False, fetched = [], slept = 0, raised = None\<rparr>;
          f = f\<lparr>written := written f @ [fields]\<rparr>;
          f = date_loop web facility_type prec_no block_no start_date end_date f
      in f\<lparr>closed := True\<rparr>)"

section \<open>Notions used to state the properties\<close>

text \<open>
  The dates the loop of \<open>create_csv_hour\<close> visits when no extraction fails: the cursor
  starts at the first date and moves by \<open>add_one_day\<close> while it is not past the last.
\<close>

function days :: "date \<Rightarrow> date \<Rightarrow> date list" where
  "days date end_date =
     (if date_le date end_date then
        date # (case add_one_day date of Inl e \<Rightarrow> [] | Inr date' \<Rightarrow> days date' end_date)
      else [])"
  by pat_completeness auto
termination
  by (relation "measure (\<lambda>(date, end_date). date_measure date)")
     (auto simp: add_one_day_def date_measure_def days_in_month_def split: if_splits)

text \<open>What the call of \<open>scraping_day_per_hour\<close> made for one date gives.\<close>

definition day_result ::
    "(pystr \<Rightarrow> response) \<Rightarrow> pystr option \<Rightarrow> pystr \<Rightarrow> pystr \<Rightarrow> date \<Rightarrow> error + pyval list list" where
  "day_result web facility_type prec_no block_no date =
     scraping_day_per_hour web (target_url facility_type prec_no block_no date) date facility_type"

definition day_ok :: "(pystr \<Rightarrow> response) \<Rightarrow> pystr option \<Rightarrow> pystr \<Rightarrow> pystr \<Rightarrow> date \<Rightarrow> bool" where
  "day_ok web facility_type prec_no block_no date =
     (case day_result web facility_type prec_no block_no date of Inl e \<Rightarrow> False | Inr rows \<Rightarrow> True)"

definition day_rows ::
    "(pystr \<Rightarrow> response) \<Rightarrow> pystr option \<Rightarrow> pystr \<Rightarrow> pystr \<Rightarrow> date \<Rightarrow> pyval list list" where
  "day_rows web facility_type prec_no block_no date =
     (case day_result web facility_type prec_no block_no date of Inl e \<Rightarrow> [] | Inr rows \<Rightarrow> rows)"

text \<open>The cell index a layout variant reads its precipitation from.\<close>

definition target_index :: "pystr option \<Rightarrow> nat option" where
  "target_index facility_type =
     (if facility_type = Some (str ''s1'') then Some 3
      else if facility_type = Some (str ''a1'') then Some 1
      else None)"

text \<open>\<^verbatim>\<open>isinstance(v, float)\<close>, and being a number that is neither an infinity nor NaN.\<close>

definition is_float :: "pyval \<Rightarrow> bool" where
  "is_float v = (case v of PyFloat f \<Rightarrow> True | _ \<Rightarrow> False)"

definition finite_number :: "pyval \<Rightarrow> bool" where
  "finite_number v =
     (case v of PyInt n \<Rightarrow> True | PyFloat f \<Rightarrow> (case f of Finite q \<Rightarrow> True | _ \<Rightarrow> False) | _ \<Rightarrow> False)"

text \<open>The row a table row yields when its cell \<open>i\<close> has a text.\<close>

definition hour_row :: "date \<Rightarrow> nat \<Rightarrow> tr \<Rightarrow> pyval list" where
  "hour_row date i tds =
     [PyDate date, string_value (tds ! 0),
      (case tds ! i of None \<Rightarrow> PyNone | Some text \<Rightarrow> string_to_float text)]"

text \<open>Three sites: one that cannot be reached, one whose pages have no data table, and one
  that answers every url with the same table rows.\<close>

definition unreachable :: "pystr \<Rightarrow> response" where
  "unreachable url = Unreachable"

definition no_table :: "pystr \<Rightarrow> response" where
  "no_table url = Document None"

definition serve :: "tr list \<Rightarrow> pystr \<Rightarrow> response" where
  "serve trs url = Document (Some trs)"

text \<open>A site that has a table at one url only and cannot be reached at any other.\<close>

definition serve_only :: "pystr \<Rightarrow> tr list \<Rightarrow> pystr \<Rightarrow> response" where
  "serve_only u trs url = (if url = u then Document (Some trs) else Unreachable)"

text \<open>Pages used as examples. The two header rows of a table hold no \<^verbatim>\<open>td\<close> cell.\<close>

definition example_url :: pystr where
  "example_url = target_url (Some (str ''s1'')) (str ''44'') (str ''47662'') (Date 2020 1 7)"



definition page_three_hours :: "tr list" where
  "page_three_hours =
     [[], [],
      [Some (str ''1''), None, None, Some (str ''0.5'')],
      [Some (str ''2''), None, None, Some []],
      [Some (str ''3''), None, None, None],
      [Some (str ''4'')]]"

definition page_nan :: "tr list" where
  "page_nan = [[], [], [Some (str ''1''), None, None, Some (str ''nan'')]]"

definition page_25_hours :: "tr list" where
  "page_25_hours = [] # [] # replicate 25 [Some (str ''1''), None, None, Some (str ''0.5'')]"

section \<open>Basic facts\<close>

lemma s1_neq_a1: "str ''s1'' \<noteq> str ''a1''"
  by (simp add: str_def)

lemma py_float_error: "py_float s = Inl e \<Longrightarrow> e = ValueError"
  by (auto simp: py_float_def Let_def split: option.splits)

lemmas float_eval =
  string_to_float_def py_float_def str_def to_ascii_def strip_def ascii_space_def is_digit_def
  lower_def parse_unsigned_def parse_exponent_def scale10_def round_float_def
  unicode_space_def unicode_decimal_def decimal_runs_def

subsection \<open>The row loop\<close>

lemma target_index_cases:
  "target_index ft = Some i \<Longrightarrow> (ft = Some (str ''s1'') \<and> i = 3) \<or> (ft = Some (str ''a1'') \<and> i = 1)"
  by (auto simp: target_index_def split: if_splits)

lemma rows_loop_other:
  "target_index ft = None \<Longrightarrow> rows_loop date ft trs acc = Inr acc"
  by (induction trs arbitrary: acc) (auto simp: target_index_def split: if_splits)

lemma rows_loop_Cons:
  "target_index ft = Some i \<Longrightarrow>
   rows_loop date ft (tds # trs) acc =
     (case read_row date tds i of
        Inl e \<Rightarrow> Inl e
      | Inr None \<Rightarrow> Inr acc
      | Inr (Some data_list) \<Rightarrow> rows_loop date ft trs (acc @ [data_list]))"
  using s1_neq_a1 by (auto simp: target_index_def split: if_splits)

declare rows_loop.simps(2) [simp del]

lemma read_row_text:
  "i < length tds \<Longrightarrow> tds ! i = Some text \<Longrightarrow>
   read_row date tds i = Inr (Some (hour_row date i tds))"
  by (cases tds) (auto simp: read_row_def item_def hour_row_def)

lemma read_row_no_text:
  "i < length tds \<Longrightarrow> tds ! i = None \<Longrightarrow> read_row date tds i = Inr None"
  by (simp add: read_row_def item_def)


lemma read_row_error: "read_row date tds i = Inl e \<Longrightarrow> e = IndexError"
  by (auto simp: read_row_def item_def split: if_splits option.splits)

lemma read_row_Some:
  "read_row date tds i = Inr (Some r) \<Longrightarrow>
   \<exists>text. i < length tds \<and> tds ! i = Some text \<and>
     r = [PyDate date, string_value (tds ! 0), string_to_float text]"
  by (auto simp: read_row_def item_def split: if_splits option.splits)


lemma rows_loop_error: "rows_loop date ft trs acc = Inl e \<Longrightarrow> e = IndexError"
proof (cases "target_index ft")
  case None
  then show "rows_loop date ft trs acc = Inl e \<Longrightarrow> e = IndexError"
    by (simp add: rows_loop_other)
next
  case (Some i)
  show "rows_loop date ft trs acc = Inl e \<Longrightarrow> e = IndexError"
  proof (induction trs arbitrary: acc)
    case Nil
    then show ?case by simp
  next
    case (Cons tds trs)
    then show ?case
      by (auto simp: rows_loop_Cons [OF Some] split: sum.splits option.splits dest: read_row_error)
  qed
qed

lemma rows_loop_length:
  "rows_loop date ft trs acc = Inr recs \<Longrightarrow> length recs \<le> length acc + length trs"
proof (cases "target_index ft")
  case None
  then show "rows_loop date ft trs acc = Inr recs \<Longrightarrow> length recs \<le> length acc + length trs"
    by (simp add: rows_loop_other)
next
  case (Some i)
  show "rows_loop date ft trs acc = Inr recs \<Longrightarrow> length recs \<le> length acc + length trs"
  proof (induction trs arbitrary: acc)
    case Nil
    then show ?case by simp
  next
    case (Cons tds trs)
    then show ?case
      by (fastforce simp: rows_loop_Cons [OF Some] split: sum.splits option.splits)
  qed
qed

lemma rows_loop_member:
  assumes "target_index ft = Some i"
  shows "rows_loop date ft trs acc = Inr recs \<Longrightarrow> r \<in> set recs \<Longrightarrow>
     r \<in> set acc \<or>
     (\<exists>tds text. tds \<in> set trs \<and> i < length tds \<and> tds ! i = Some text \<and>
        r = [PyDate date, string_value (tds ! 0), string_to_float text])"
proof (induction trs arbitrary: acc)
  case Nil
  then show ?case by simp
next
  case (Cons tds trs)
  show ?case
  proof (cases "read_row date tds i")
    case (Inl e)
    with Cons.prems show ?thesis by (simp add: rows_loop_Cons [OF assms])
  next
    case (Inr x)
    show ?thesis
    proof (cases x)
      case None
      with Inr Cons.prems show ?thesis by (simp add: rows_loop_Cons [OF assms])
    next
      case (Some data_list)
      with Inr Cons.prems have "rows_loop date ft trs (acc @ [data_list]) = Inr recs"
        by (simp add: rows_loop_Cons [OF assms])
      from Cons.IH [OF this Cons.prems(2)] read_row_Some [of date tds i data_list] Inr Some
      show ?thesis by auto
    qed
  qed
qed

lemma rows_loop_wide:
  assumes "\<forall>tds\<in>set trs. 4 \<le> length tds"
  shows "\<exists>recs. rows_loop date ft trs acc = Inr recs"
proof (cases "target_index ft")
  case None
  then show ?thesis by (simp add: rows_loop_other)
next
  case (Some i)
  then have i: "i < 4" using target_index_cases [OF Some] by auto
  from assms show ?thesis
  proof (induction trs arbitrary: acc)
    case Nil
    then show ?case by simp
  next
    case (Cons tds trs)
    then have len: "i < length tds" using i by auto
    show ?case
    proof (cases "tds ! i")
      case None
      with len show ?thesis
        by (simp add: rows_loop_Cons [OF Some] read_row_no_text)
    next
      case (Some s)
      with len Cons show ?thesis
        by (simp add: rows_loop_Cons [OF \<open>target_index ft = Some i\<close>] read_row_text)
    qed
  qed
qed

lemma target_index_s1: "target_index (Some (str ''s1'')) = Some 3"
  by (simp add: target_index_def)

lemma rows_loop_all:
  assumes "target_index ft = Some i"
  shows "\<forall>tds\<in>set trs. i < length tds \<and> tds ! i \<noteq> None \<Longrightarrow>
     rows_loop date ft trs acc = Inr (acc @ map (hour_row date i) trs)"
proof (induction trs arbitrary: acc)
  case Nil
  show ?case by simp
next
  case (Cons tds trs)
  then obtain s where "i < length tds" "tds ! i = Some s" by auto
  then have "read_row date tds i = Inr (Some (hour_row date i tds))"
    by (rule read_row_text)
  with Cons show ?case
    by (simp add: rows_loop_Cons [OF assms])
qed

lemma finite_number_string_to_float:
  "finite_number (string_to_float s) \<longleftrightarrow>
     py_float s \<noteq> Inr PosInf \<and> py_float s \<noteq> Inr NegInf \<and> py_float s \<noteq> Inr NaN"
proof (cases "py_float s")
  case (Inl e)
  then show ?thesis by (simp add: string_to_float_def finite_number_def)
next
  case (Inr x)
  then show ?thesis by (cases x) (simp_all add: string_to_float_def finite_number_def)
qed

subsection \<open>The date loop, one step at a time\<close>

lemma add_one_day_measure: "add_one_day d = Inr d' \<Longrightarrow> date_measure d' < date_measure d"
  by (auto simp: add_one_day_def date_measure_def days_in_month_def split: if_splits)

lemma date_loop_stop: "\<not> date_le d e \<Longrightarrow> date_loop web ft p b d e f = f"
  by (subst date_loop.simps) (simp only: if_False)

lemma date_loop_fail:
  "date_le d e \<Longrightarrow> day_result web ft p b d = Inl err \<Longrightarrow>
   date_loop web ft p b d e f =
     f\<lparr>slept := slept f + 1, fetched := fetched f @ [target_url ft p b d], raised := Some err\<rparr>"
  by (subst date_loop.simps) (simp add: Let_def day_result_def del: date_loop.simps)

lemma date_loop_last:
  "date_le d e \<Longrightarrow> day_result web ft p b d = Inr rows \<Longrightarrow> add_one_day d = Inl err \<Longrightarrow>
   date_loop web ft p b d e f =
     f\<lparr>slept := slept f + 1, fetched := fetched f @ [target_url ft p b d],
       written := written f @ rows, raised := Some err\<rparr>"
  by (subst date_loop.simps) (simp add: Let_def day_result_def del: date_loop.simps)

lemma date_loop_step:
  "date_le d e \<Longrightarrow> day_result web ft p b d = Inr rows \<Longrightarrow> add_one_day d = Inr d' \<Longrightarrow>
   date_loop web ft p b d e f =
     date_loop web ft p b d' e
       (f\<lparr>slept := slept f + 1, fetched := fetched f @ [target_url ft p b d],
          written := written f @ rows\<rparr>)"
  by (subst date_loop.simps) (simp add: Let_def day_result_def del: date_loop.simps)

lemma days_stop: "\<not> date_le d e \<Longrightarrow> days d e = []"
  by (subst days.simps) (simp only: if_False)

lemma days_last: "date_le d e \<Longrightarrow> add_one_day d = Inl err \<Longrightarrow> days d e = [d]"
  by (subst days.simps) (simp del: days.simps)

lemma days_step: "date_le d e \<Longrightarrow> add_one_day d = Inr d' \<Longrightarrow> days d e = d # days d' e"
  by (subst days.simps) (simp del: days.simps)

declare days.simps [simp del] date_loop.simps [simp del]

subsection \<open>The calendar\<close>

lemma days_in_month_bounds: "1 \<le> days_in_month y m \<and> days_in_month y m \<le> 31"
  by (simp add: days_in_month_def)

lemma days_in_december: "days_in_month y 12 = 31"
  by (simp add: days_in_month_def)

lemma date_le_refl: "date_le a a"
  by (simp add: date_le_def)

lemma date_le_trans: "date_le a b \<Longrightarrow> date_le b c \<Longrightarrow> date_le a c"
  by (auto simp: date_le_def)

lemma date_le_antisym: "date_le a b \<Longrightarrow> date_le b a \<Longrightarrow> a = b"
  by (cases a; cases b) (auto simp: date_le_def)

lemma add_one_day_gt: "add_one_day d = Inr d' \<Longrightarrow> date_le d d' \<and> \<not> date_le d' d"
  by (cases d) (auto simp: add_one_day_def date_le_def split: if_splits)

lemma add_one_day_valid: "valid_date d \<Longrightarrow> add_one_day d = Inr d' \<Longrightarrow> valid_date d'"
  using days_in_month_bounds [of "year d" "Suc (month d)"] days_in_month_bounds [of "Suc (year d)" 1]
  by (cases d) (auto simp: add_one_day_def valid_date_def split: if_splits)

lemma add_one_day_overflow:
  "valid_date d \<Longrightarrow> add_one_day d = Inl err \<Longrightarrow> d = Date 9999 12 31"
proof -
  assume v: "valid_date d" and o: "add_one_day d = Inl err"
  from o have a: "\<not> day d < days_in_month (year d) (month d)" "\<not> month d < 12" "\<not> year d < 9999"
    by (auto simp: add_one_day_def split: if_splits)
  with v have "year d = 9999" "month d = 12"
    by (auto simp: valid_date_def)
  moreover from this a v have "day d = 31"
    by (simp add: valid_date_def days_in_december)
  ultimately show ?thesis by (cases d) simp
qed

lemma add_one_day_least:
  "add_one_day d = Inr d' \<Longrightarrow> valid_date x \<Longrightarrow> date_le d x \<Longrightarrow> x \<noteq> d \<Longrightarrow> date_le d' x"
  by (cases d; cases x) (auto simp: add_one_day_def valid_date_def date_le_def split: if_splits)

lemma last_date_greatest: "valid_date x \<Longrightarrow> date_le (Date 9999 12 31) x \<Longrightarrow> x = Date 9999 12 31"
proof -
  assume v: "valid_date x" and le: "date_le (Date 9999 12 31) x"
  from v le have y: "year x = 9999" by (auto simp: valid_date_def date_le_def)
  with v le have m: "month x = 12" by (auto simp: valid_date_def date_le_def)
  with y v le have "day x = 31" by (auto simp: valid_date_def date_le_def days_in_december)
  with y m show ?thesis by (cases x) simp
qed

lemma no_overflow:
  assumes "date_le d e" and "date_lt e (Date 9999 12 31)"
  shows "\<exists>d'. add_one_day d = Inr d'"
proof (cases "add_one_day d")
  case (Inr d')
  then show ?thesis by simp
next
  case (Inl err)
  then have a: "\<not> day d < days_in_month (year d) (month d)" "\<not> month d < 12" "\<not> year d < 9999"
    by (auto simp: add_one_day_def split: if_splits)
  from assms(2) have e: "year e < 9999 \<or> (year e = 9999 \<and> (month e < 12 \<or> (month e = 12 \<and> day e < 31)))"
    by (cases e) (auto simp: date_lt_def date_le_def)
  from a(3) assms(1) e have y: "year d = 9999" "year e = 9999"
    by (auto simp: date_le_def)
  with a(2) assms(1) e have m: "month d = 12" "month e = 12"
    by (auto simp: date_le_def)
  with y assms(1) e have "day d < 31"
    by (auto simp: date_le_def)
  with a(1) y m show ?thesis by (simp add: days_in_december)
qed

subsection \<open>The state the date loop ends in\<close>

lemma day_ok_iff: "day_ok web ft p b d \<longleftrightarrow> (\<exists>rows. day_result web ft p b d = Inr rows)"
  by (cases "day_result web ft p b d") (simp_all add: day_ok_def)

lemma day_rows_Inr: "day_result web ft p b d = Inr rows \<Longrightarrow> day_rows web ft p b d = rows"
  by (simp add: day_rows_def)

lemma day_rows_Inl: "day_result web ft p b d = Inl err \<Longrightarrow> day_rows web ft p b d = []"
  by (simp add: day_rows_def)

lemma days_head: "date_le d e \<Longrightarrow> \<exists>rest. days d e = d # rest"
  by (cases "add_one_day d") (simp_all add: days_last days_step)

lemma loop_closed: "closed (date_loop web ft p b d e f) = closed f"
proof (induction "date_measure d" arbitrary: d f rule: less_induct)
  case less
  show ?case
  proof (cases "date_le d e")
    case False
    then show ?thesis by (simp add: date_loop_stop)
  next
    case le: True
    show ?thesis
    proof (cases "day_result web ft p b d")
      case (Inl err)
      with le show ?thesis by (simp add: date_loop_fail)
    next
      case (Inr rows)
      show ?thesis
      proof (cases "add_one_day d")
        case (Inl err)
        with le Inr show ?thesis by (simp add: date_loop_last)
      next
        case next_day: (Inr d')
        have "closed (date_loop web ft p b d' e
            (f\<lparr>slept := slept f + 1, fetched := fetched f @ [target_url ft p b d],
               written := written f @ rows\<rparr>)) = closed f"
          using less [OF add_one_day_measure [OF next_day]] by simp
        with le Inr next_day show ?thesis by (simp add: date_loop_step)
      qed
    qed
  qed
qed

lemma loop_written:
  "written (date_loop web ft p b d e f) =
     written f @ concat (map (day_rows web ft p b) (takeWhile (day_ok web ft p b) (days d e)))"
proof (induction "date_measure d" arbitrary: d f rule: less_induct)
  case less
  show ?case
  proof (cases "date_le d e")
    case False
    then show ?thesis by (simp add: date_loop_stop days_stop)
  next
    case le: True
    show ?thesis
    proof (cases "day_result web ft p b d")
      case (Inl err)
      then have "\<not> day_ok web ft p b d" by (simp add: day_ok_iff)
      with days_head [OF le] Inl le show ?thesis
        by (auto simp add: date_loop_fail)
    next
      case (Inr rows)
      then have ok: "day_ok web ft p b d" by (simp add: day_ok_iff)
      show ?thesis
      proof (cases "add_one_day d")
        case (Inl err)
        with le Inr ok show ?thesis
          by (simp add: date_loop_last days_last day_rows_Inr)
      next
        case next_day: (Inr d')
        note ih = less [OF add_one_day_measure [OF next_day]]
        from le Inr next_day ok show ?thesis
          by (simp add: date_loop_step days_step day_rows_Inr ih)
      qed
    qed
  qed
qed

lemma loop_fetched:
  "fetched (date_loop web ft p b d e f) =
     fetched f @ map (target_url ft p b)
        (take (Suc (length (takeWhile (day_ok web ft p b) (days d e)))) (days d e))"
proof (induction "date_measure d" arbitrary: d f rule: less_induct)
  case less
  show ?case
  proof (cases "date_le d e")
    case False
    then show ?thesis by (simp add: date_loop_stop days_stop)
  next
    case le: True
    show ?thesis
    proof (cases "day_result web ft p b d")
      case (Inl err)
      then have "\<not> day_ok web ft p b d" by (simp add: day_ok_iff)
      with days_head [OF le] Inl le show ?thesis
        by (auto simp add: date_loop_fail)
    next
      case (Inr rows)
      then have ok: "day_ok web ft p b d" by (simp add: day_ok_iff)
      show ?thesis
      proof (cases "add_one_day d")
        case (Inl err)
        with le Inr ok show ?thesis
          by (simp add: date_loop_last days_last)
      next
        case next_day: (Inr d')
        note ih = less [OF add_one_day_measure [OF next_day]]
        from le Inr next_day ok show ?thesis
          by (simp add: date_loop_step days_step ih)
      qed
    qed
  qed
qed

lemma loop_slept:
  "slept (date_loop web ft p b d e f) =
     slept f + length (take (Suc (length (takeWhile (day_ok web ft p b) (days d e)))) (days d e))"
proof (induction "date_measure d" arbitrary: d f rule: less_induct)
  case less
  show ?case
  proof (cases "date_le d e")
    case False
    then show ?thesis by (simp add: date_loop_stop days_stop)
  next
    case le: True
    show ?thesis
    proof (cases "day_result web ft p b d")
      case (Inl err)
      then have "\<not> day_ok web ft p b d" by (simp add: day_ok_iff)
      with days_head [OF le] Inl le show ?thesis
        by (auto simp add: date_loop_fail)
    next
      case (Inr rows)
      then have ok: "day_ok web ft p b d" by (simp add: day_ok_iff)
      show ?thesis
      proof (cases "add_one_day d")
        case (Inl err)
        with le Inr ok show ?thesis
          by (simp add: date_loop_last days_last)
      next
        case next_day: (Inr d')
        note ih = less [OF add_one_day_measure [OF next_day]]
        from le Inr next_day ok show ?thesis
          by (simp add: date_loop_step days_step ih)
      qed
    qed
  qed
qed

lemma day_result_unreachable: "day_result unreachable ft p b d = Inl URLError"
  by (simp add: day_result_def scraping_day_per_hour_def unreachable_def)

lemma days_bounds: "x \<in> set (days d e) \<Longrightarrow> date_le d x \<and> date_le x e"
proof (induction "date_measure d" arbitrary: d rule: less_induct)
  case less
  show ?case
  proof (cases "date_le d e")
    case False
    with less.prems show ?thesis by (simp add: days_stop)
  next
    case le: True
    show ?thesis
    proof (cases "add_one_day d")
      case (Inl err)
      with le less.prems show ?thesis
        by (simp add: days_last date_le_refl)
    next
      case (Inr d')
      show ?thesis
      proof (cases "x = d")
        case True
        with le show ?thesis by (simp add: date_le_refl)
      next
        case False
        with le Inr less.prems have "x \<in> set (days d' e)"
          by (simp add: days_step)
        from less.hyps [OF add_one_day_measure [OF Inr] this] add_one_day_gt [OF Inr]
        show ?thesis by (blast intro: date_le_trans)
      qed
    qed
  qed
qed

lemma days_sorted: "sorted_wrt date_lt (days d e)"
proof (induction "date_measure d" arbitrary: d rule: less_induct)
  case less
  show ?case
  proof (cases "date_le d e")
    case False
    then show ?thesis by (simp add: days_stop)
  next
    case le: True
    show ?thesis
    proof (cases "add_one_day d")
      case (Inl err)
      with le show ?thesis by (simp add: days_last)
    next
      case (Inr d')
      have "date_lt d x" if "x \<in> set (days d' e)" for x
      proof -
        from days_bounds [OF that] have "date_le d' x" by simp
        with add_one_day_gt [OF Inr] show ?thesis
          unfolding date_lt_def by (blast intro: date_le_trans)
      qed
      with le Inr less.hyps [OF add_one_day_measure [OF Inr]] show ?thesis
        by (simp add: days_step)
    qed
  qed
qed

lemma days_complete:
  "valid_date d \<Longrightarrow> valid_date x \<Longrightarrow> date_le d x \<Longrightarrow> date_le x e \<Longrightarrow> x \<in> set (days d e)"
proof (induction "date_measure d" arbitrary: d rule: less_induct)
  case less
  from less.prems have le: "date_le d e" by (blast intro: date_le_trans)
  show ?case
  proof (cases "x = d")
    case True
    with days_head [OF le] show ?thesis by auto
  next
    case False
    show ?thesis
    proof (cases "add_one_day d")
      case (Inl err)
      from add_one_day_overflow [OF less.prems(1) Inl] less.prems(2,3) False
      show ?thesis
        using last_date_greatest [of x] by simp
    next
      case (Inr d')
      have "x \<in> set (days d' e)"
        using less.hyps [OF add_one_day_measure [OF Inr] add_one_day_valid [OF less.prems(1) Inr]
            less.prems(2) add_one_day_least [OF Inr less.prems(2,3) False] less.prems(4)] .
      with le Inr show ?thesis by (simp add: days_step)
    qed
  qed
qed

lemma days_same: "days d d = [d]"
proof (cases "add_one_day d")
  case (Inl err)
  then show ?thesis by (simp add: days_last date_le_refl)
next
  case (Inr d')
  with add_one_day_gt [OF Inr] show ?thesis
    by (simp add: days_step days_stop date_le_refl)
qed

lemma loop_raised_ok:
  "\<forall>x\<in>set (days d e). day_ok web ft p b x \<Longrightarrow> date_lt e (Date 9999 12 31) \<Longrightarrow>
   raised (date_loop web ft p b d e f) = raised f"
proof (induction "date_measure d" arbitrary: d f rule: less_induct)
  case less
  show ?case
  proof (cases "date_le d e")
    case False
    then show ?thesis by (simp add: date_loop_stop)
  next
    case le: True
    from no_overflow [OF le less.prems(2)] obtain d' where next_day: "add_one_day d = Inr d'" ..
    from le next_day have days: "days d e = d # days d' e" by (rule days_step)
    with less.prems(1) obtain rows where rows: "day_result web ft p b d = Inr rows"
      by (auto simp: day_ok_iff)
    from less.prems(1) days have "\<forall>x\<in>set (days d' e). day_ok web ft p b x"
      by simp
    from less.hyps [OF add_one_day_measure [OF next_day] this less.prems(2)]
    show ?thesis
      by (simp add: date_loop_step [OF le rows next_day])
  qed
qed

lemma loop_raised_fail:
  "days d e = pre @ x # rest \<Longrightarrow> \<forall>y\<in>set pre. day_ok web ft p b y \<Longrightarrow>
   day_result web ft p b x = Inl err \<Longrightarrow>
   raised (date_loop web ft p b d e f) = Some err"
proof (induction pre arbitrary: d f)
  case Nil
  then have le: "date_le d e"
    using days_stop [of d e] by auto
  with days_head [OF le] Nil have "x = d" by auto
  with le Nil show ?case by (simp add: date_loop_fail)
next
  case (Cons y pre)
  then have le: "date_le d e"
    using days_stop [of d e] by auto
  with days_head [OF le] Cons.prems have y: "y = d" by auto
  with Cons.prems obtain rows where rows: "day_result web ft p b d = Inr rows"
    by (auto simp: day_ok_iff)
  show ?case
  proof (cases "add_one_day d")
    case (Inl err')
    with le Cons.prems show ?thesis by (simp add: days_last)
  next
    case (Inr d')
    with le Cons.prems y have "days d' e = pre @ x # rest"
      by (simp add: days_step)
    from Cons.IH [OF this] Cons.prems show ?thesis
      by (simp add: date_loop_step [OF le rows Inr])
  qed
qed

subsection \<open>Whole days and example runs\<close>

lemma scraping_rows_shape:
  assumes "scraping_day_per_hour web url date ft = Inr recs" and "r \<in> set recs"
  shows "\<exists>h v. r = [PyDate date, h, v]"
proof -
  from assms(1) obtain trs where loop: "rows_loop date ft (drop 2 trs) [] = Inr recs"
    by (auto simp: scraping_day_per_hour_def split: response.splits option.splits)
  show ?thesis
  proof (cases "target_index ft")
    case None
    with loop assms(2) show ?thesis by (simp add: rows_loop_other)
  next
    case (Some i)
    from rows_loop_member [OF Some loop assms(2)] show ?thesis by auto
  qed
qed

lemma day_rows_shape: "r \<in> set (day_rows web ft p b d) \<Longrightarrow> \<exists>h v. r = [PyDate d, h, v]"
  by (cases "day_result web ft p b d")
     (auto simp: day_rows_def day_result_def dest: scraping_rows_shape)

lemma select_other:
  "length block_no \<noteq> 4 \<Longrightarrow> length block_no \<noteq> 5 \<Longrightarrow> select_weather_observatory block_no = None"
  by (simp add: select_weather_observatory_def)

lemma target_index_None: "ft \<noteq> Some (str ''s1'') \<Longrightarrow> ft \<noteq> Some (str ''a1'') \<Longrightarrow> target_index ft = None"
  by (simp add: target_index_def)

lemma day_result_table:
  "web (target_url ft p b d) = Document (Some trs) \<Longrightarrow>
   day_result web ft p b d = rows_loop d ft (drop 2 trs) []"
  by (simp add: day_result_def scraping_day_per_hour_def)

declare str_nat.simps [simp del]

lemma length_str: "length (str cs) = length cs"
  by (simp add: str_def)

lemma select_47662: "select_weather_observatory (str ''47662'') = Some (str ''s1'')"
  by (simp add: select_weather_observatory_def length_str)

lemma rows_three_hours:
  "rows_loop d (Some (str ''s1'')) (drop 2 page_three_hours) [] =
     Inr [[PyDate d, PyStr (str ''1''), PyFloat (Finite (1 / 2))],
          [PyDate d, PyStr (str ''2''), PyInt 0]]"
proof -
  have f: "string_to_float (str ''0.5'') = PyFloat (Finite (1 / 2))"
    by (simp add: float_eval)
  have g: "string_to_float [] = PyInt 0"
    by (simp add: float_eval)
  show ?thesis
    by (simp add: page_three_hours_def rows_loop_Cons [OF target_index_s1] read_row_text
        read_row_no_text hour_row_def string_value_def f g)
qed

lemma day_result_three_hours:
  "day_result (serve page_three_hours) (Some (str ''s1'')) p b d =
     Inr [[PyDate d, PyStr (str ''1''), PyFloat (Finite (1 / 2))],
          [PyDate d, PyStr (str ''2''), PyInt 0]]"
  by (simp add: day_result_table [of _ _ _ _ _ page_three_hours] serve_def rows_three_hours)

lemma days_feb28_mar1:
  "days (Date 2020 2 28) (Date 2020 3 1) = [Date 2020 2 28, Date 2020 2 29, Date 2020 3 1]"
proof -
  have s1: "add_one_day (Date 2020 2 28) = Inr (Date 2020 2 29)"
    by (simp add: add_one_day_def days_in_month_def is_leap_def)
  have s2: "add_one_day (Date 2020 2 29) = Inr (Date 2020 3 1)"
    by (simp add: add_one_day_def days_in_month_def is_leap_def)
  have s3: "add_one_day (Date 2020 3 1) = Inr (Date 2020 3 2)"
    by (simp add: add_one_day_def days_in_month_def is_leap_def)
  have l1: "date_le (Date 2020 2 28) (Date 2020 3 1)"
    by (simp add: date_le_def)
  have l2: "date_le (Date 2020 2 29) (Date 2020 3 1)"
    by (simp add: date_le_def)
  have l3: "date_le (Date 2020 3 1) (Date 2020 3 1)"
    by (simp add: date_le_def)
  have l4: "\<not> date_le (Date 2020 3 2) (Date 2020 3 1)"
    by (simp add: date_le_def)
  show ?thesis
    by (simp only: days_step [OF l1 s1] days_step [OF l2 s2] days_step [OF l3 s3] days_stop [OF l4])
qed

lemma days_jan7_jan9:
  "days (Date 2020 1 7) (Date 2020 1 9) = [Date 2020 1 7, Date 2020 1 8, Date 2020 1 9]"
proof -
  have s1: "add_one_day (Date 2020 1 7) = Inr (Date 2020 1 8)"
    by (simp add: add_one_day_def days_in_month_def)
  have s2: "add_one_day (Date 2020 1 8) = Inr (Date 2020 1 9)"
    by (simp add: add_one_day_def days_in_month_def)
  have s3: "add_one_day (Date 2020 1 9) = Inr (Date 2020 1 10)"
    by (simp add: add_one_day_def days_in_month_def)
  have l1: "date_le (Date 2020 1 7) (Date 2020 1 9)"
    by (simp add: date_le_def)
  have l2: "date_le (Date 2020 1 8) (Date 2020 1 9)"
    by (simp add: date_le_def)
  have l3: "date_le (Date 2020 1 9) (Date 2020 1 9)"
    by (simp add: date_le_def)
  have l4: "\<not> date_le (Date 2020 1 10) (Date 2020 1 9)"
    by (simp add: date_le_def)
  show ?thesis
    by (simp only: days_step [OF l1 s1] days_step [OF l2 s2] days_step [OF l3 s3] days_stop [OF l4])
qed

lemma url_jan8: "target_url ft p b (Date y m 8) \<noteq> target_url ft p b (Date y m 7)"
  by (simp add: target_url_def str_nat.simps [of 7] str_nat.simps [of 8])

section \<open>The station classifier\<close>

text \<open>
  C1. A station code of length 5 gives \<^verbatim>\<open>"s1"\<close> and one of length 4 gives \<^verbatim>\<open>"a1"\<close>, but for any
  other length no failure is signalled: the function returns \<^verbatim>\<open>None\<close> to its caller. Here it
  is evaluated at the three-character code \<^verbatim>\<open>"123"\<close>.
\<close>

theorem select_weather_observatory_other_length:
  "select_weather_observatory (str ''123'') = None"
  by (simp add: select_weather_observatory_def str_def)

section \<open>The value coercer\<close>

text \<open>
  C3, as stated, fails: on the empty string the result is the integer \<^verbatim>\<open>0\<close>, which is not a
  floating-point number.
\<close>

theorem string_to_float_empty_not_float:
  "\<not> is_float (string_to_float [])"
  by (simp add: float_eval is_float_def)

text \<open>
  C3, amended. \<open>string_to_float\<close> never raises. When \<^verbatim>\<open>float\<close> parses the text the result is
  the parsed float (\<^verbatim>\<open>"12.3"\<close> gives 12.3, \<^verbatim>\<open>"0"\<close> gives 0.0); when it does not (the empty string,
  the glyph U+00D7) the result is the integer \<^verbatim>\<open>0\<close>.
\<close>

theorem string_to_float_parsed_or_zero:
  "((\<exists>f. py_float s = Inr f \<and> string_to_float s = PyFloat f) \<or>
    (py_float s = Inl ValueError \<and> string_to_float s = PyInt 0)) \<and>
   string_to_float (str ''12.3'') = PyFloat (Finite (123 / 10)) \<and>
   string_to_float (str ''0'') = PyFloat (Finite 0) \<and>
   string_to_float [] = PyInt 0 \<and>
   string_to_float [215] = PyInt 0"
proof -
  have "(\<exists>f. py_float s = Inr f \<and> string_to_float s = PyFloat f) \<or>
        (py_float s = Inl ValueError \<and> string_to_float s = PyInt 0)"
    by (cases "py_float s") (auto simp: string_to_float_def dest: py_float_error)
  moreover have "string_to_float (str ''12.3'') = PyFloat (Finite (123 / 10))"
    by (simp add: float_eval)
  moreover have "string_to_float (str ''0'') = PyFloat (Finite 0)"
    by (simp add: float_eval)
  moreover have "string_to_float [] = PyInt 0"
    by (simp add: float_eval)
  moreover have "string_to_float [215] = PyInt 0"
    by (simp add: float_eval)
  ultimately show ?thesis by simp
qed

section \<open>The day extractor\<close>




text \<open>
  C4, as stated, fails: a target cell with the text \<^verbatim>\<open>nan\<close> parses, and the record carries
  NaN.
\<close>

theorem nan_text_gives_NaN_precipitation:
  "scraping_day_per_hour (serve page_nan) example_url (Date 2020 1 7) (Some (str ''s1''))
     = Inr [[PyDate (Date 2020 1 7), PyStr (str ''1''), PyFloat NaN]] \<and>
   \<not> finite_number (PyFloat NaN)"
proof -
  have "string_to_float (str ''nan'') = PyFloat NaN"
    by (simp add: float_eval)
  then show ?thesis
    by (simp add: scraping_day_per_hour_def serve_def page_nan_def finite_number_def
      rows_loop_Cons [OF target_index_s1] read_row_text hour_row_def string_value_def)
qed

text \<open>
  C4, amended. The precipitation of every record the day extractor returns is never
  missing: it is \<open>string_to_float\<close> of the text of the target cell of a data row, that is
  the float the text parses to, or the integer \<^verbatim>\<open>0\<close> when it does not parse. It is a finite
  number exactly when the text does not parse to an infinity or to NaN.
\<close>

theorem precipitation_is_coerced_cell_text:
  assumes "scraping_day_per_hour web url date facility_type = Inr recs"
    and "r \<in> set recs"
  shows "\<exists>trs tds i s. web url = Document (Some trs) \<and> tds \<in> set (drop 2 trs) \<and>
           target_index facility_type = Some i \<and> i < length tds \<and> tds ! i = Some s \<and>
           r = [PyDate date, string_value (tds ! 0), string_to_float s] \<and>
           (string_to_float s = PyInt 0 \<or> (\<exists>x. py_float s = Inr x \<and> string_to_float s = PyFloat x)) \<and>
           (finite_number (string_to_float s) \<longleftrightarrow>
              py_float s \<noteq> Inr PosInf \<and> py_float s \<noteq> Inr NegInf \<and> py_float s \<noteq> Inr NaN)"
proof -
  from assms(1) obtain trs where page: "web url = Document (Some trs)"
    and loop: "rows_loop date facility_type (drop 2 trs) [] = Inr recs"
    by (auto simp: scraping_day_per_hour_def split: response.splits option.splits)
  show ?thesis
  proof (cases "target_index facility_type")
    case None
    with loop assms(2) show ?thesis by (simp add: rows_loop_other)
  next
    case (Some i)
    from rows_loop_member [OF Some loop assms(2)]
    obtain tds s where row: "tds \<in> set (drop 2 trs)" "i < length tds" "tds ! i = Some s"
      "r = [PyDate date, string_value (tds ! 0), string_to_float s]"
      by auto
    have "string_to_float s = PyInt 0 \<or> (\<exists>x. py_float s = Inr x \<and> string_to_float s = PyFloat x)"
      by (cases "py_float s") (simp_all add: string_to_float_def)
    with page Some row finite_number_string_to_float [of s] show ?thesis
      by blast
  qed
qed

theorem precipitation_is_coerced_cell_text_witness:
  "scraping_day_per_hour (serve page_nan) example_url (Date 2020 1 7) (Some (str ''s1''))
     = Inr [[PyDate (Date 2020 1 7), PyStr (str ''1''), PyFloat NaN]] \<and>
   [PyDate (Date 2020 1 7), PyStr (str ''1''), PyFloat NaN]
     \<in> set [[PyDate (Date 2020 1 7), PyStr (str ''1''), PyFloat NaN]] \<and>
   (\<exists>trs tds i s. serve page_nan example_url = Document (Some trs) \<and> tds \<in> set (drop 2 trs) \<and>
           target_index (Some (str ''s1'')) = Some i \<and> i < length tds \<and> tds ! i = Some s \<and>
           [PyDate (Date 2020 1 7), PyStr (str ''1''), PyFloat NaN]
             = [PyDate (Date 2020 1 7), string_value (tds ! 0), string_to_float s] \<and>
           (string_to_float s = PyInt 0 \<or> (\<exists>x. py_float s = Inr x \<and> string_to_float s = PyFloat x)) \<and>
           (finite_number (string_to_float s) \<longleftrightarrow>
              py_float s \<noteq> Inr PosInf \<and> py_float s \<noteq> Inr NegInf \<and> py_float s \<noteq> Inr NaN))"
proof -
  have "string_to_float (str ''nan'') = PyFloat NaN"
    by (simp add: float_eval)
  then have a: "scraping_day_per_hour (serve page_nan) example_url (Date 2020 1 7) (Some (str ''s1''))
     = Inr [[PyDate (Date 2020 1 7), PyStr (str ''1''), PyFloat NaN]]"
    by (simp add: scraping_day_per_hour_def serve_def page_nan_def
      rows_loop_Cons [OF target_index_s1] read_row_text hour_row_def string_value_def)
  have b: "[PyDate (Date 2020 1 7), PyStr (str ''1''), PyFloat NaN]
     \<in> set [[PyDate (Date 2020 1 7), PyStr (str ''1''), PyFloat NaN]]"
    by simp
  from precipitation_is_coerced_cell_text [OF a b] a b show ?thesis by blast
qed

text \<open>
  C6, as stated, fails: a table with 25 data rows gives 25 records.
\<close>

theorem page_with_25_rows_gives_25_records:
  "map_sum id length
     (scraping_day_per_hour (serve page_25_hours) example_url (Date 2020 1 7) (Some (str ''s1'')))
     = Inr 25"
  by (simp add: scraping_day_per_hour_def serve_def page_25_hours_def
      rows_loop_all [OF target_index_s1])

text \<open>
  C6, amended. On a fetched page that has the data table the day extractor either raises
  \<^verbatim>\<open>IndexError\<close> or returns a sequence of records of that date, at most one for each table
  row after the first two: at most 24 when the table has at most 26 rows. It returns
  whenever every data row has at least four cells.
\<close>

theorem day_extractor_at_most_one_record_per_row:
  assumes "web url = Document (Some trs)"
  shows "(scraping_day_per_hour web url date facility_type = Inl IndexError \<or>
          (\<exists>recs. scraping_day_per_hour web url date facility_type = Inr recs \<and>
             length recs \<le> length trs - 2 \<and>
             (\<forall>r\<in>set recs. \<exists>h v. r = [PyDate date, h, v]))) \<and>
         ((\<forall>tds\<in>set (drop 2 trs). 4 \<le> length tds) \<longrightarrow>
          (\<exists>recs. scraping_day_per_hour web url date facility_type = Inr recs))"
proof
  have eq: "scraping_day_per_hour web url date facility_type
      = rows_loop date facility_type (drop 2 trs) []"
    using assms by (simp add: scraping_day_per_hour_def)
  show "scraping_day_per_hour web url date facility_type = Inl IndexError \<or>
          (\<exists>recs. scraping_day_per_hour web url date facility_type = Inr recs \<and>
             length recs \<le> length trs - 2 \<and>
             (\<forall>r\<in>set recs. \<exists>h v. r = [PyDate date, h, v]))"
  proof (cases "rows_loop date facility_type (drop 2 trs) []")
    case (Inl e)
    then show ?thesis using eq rows_loop_error [OF Inl] by simp
  next
    case (Inr recs)
    have len: "length recs \<le> length trs - 2"
      using rows_loop_length [OF Inr] by simp
    have shape: "\<forall>r\<in>set recs. \<exists>h v. r = [PyDate date, h, v]"
    proof (cases "target_index facility_type")
      case None
      with Inr show ?thesis by (simp add: rows_loop_other)
    next
      case (Some i)
      show ?thesis
      proof
        fix r assume "r \<in> set recs"
        from rows_loop_member [OF Some Inr this] show "\<exists>h v. r = [PyDate date, h, v]"
          by auto
      qed
    qed
    from eq Inr len shape show ?thesis by simp
  qed
  show "(\<forall>tds\<in>set (drop 2 trs). 4 \<le> length tds) \<longrightarrow>
          (\<exists>recs. scraping_day_per_hour web url date facility_type = Inr recs)"
    using eq rows_loop_wide [of "drop 2 trs" date facility_type "[]"] by simp
qed

theorem day_extractor_at_most_one_record_per_row_witness:
  "serve page_25_hours example_url = Document (Some page_25_hours) \<and>
   list_all (\<lambda>tds. 4 \<le> length tds) (drop 2 page_25_hours) \<and>
   (\<exists>recs. scraping_day_per_hour (serve page_25_hours) example_url (Date 2020 1 7)
        (Some (str ''s1'')) = Inr recs \<and>
      length recs \<le> length page_25_hours - 2 \<and>
      (\<forall>r\<in>set recs. \<exists>h v. r = [PyDate (Date 2020 1 7), h, v]))"
proof -
  have a: "serve page_25_hours example_url = Document (Some page_25_hours)"
    by (simp add: serve_def)
  have b: "\<forall>tds\<in>set (drop 2 page_25_hours). 4 \<le> length tds"
    by (simp add: page_25_hours_def)
  then have b': "list_all (\<lambda>tds. 4 \<le> length tds) (drop 2 page_25_hours)"
    unfolding list_all_iff .
  from day_extractor_at_most_one_record_per_row
    [where web = "serve page_25_hours" and url = example_url and date = "Date 2020 1 7"
       and facility_type = "Some (str ''s1'')", OF a] b
  have "\<exists>recs. scraping_day_per_hour (serve page_25_hours) example_url (Date 2020 1 7)
        (Some (str ''s1'')) = Inr recs \<and>
      length recs \<le> length page_25_hours - 2 \<and>
      (\<forall>r\<in>set recs. \<exists>h v. r = [PyDate (Date 2020 1 7), h, v])"
    by auto
  with a b' show ?thesis by blast
qed

section \<open>The range collector\<close>

text \<open>
  C5. The file begins with the header row. After it come, day by day in the order the loop
  visits them, the rows the day extractor returned for that day, in the order it returned
  them, for the days before the first failing extraction; when no extraction fails these
  are all the days visited. The days visited are in strictly ascending order, every row of
  a day carries that day's date, and from a valid start date the days visited are exactly
  the valid dates from the start date to the end date.
\<close>

theorem rows_grouped_by_day_in_page_order:
  "written (create_csv_hour web prec_no block_no start_date end_date) =
     fields # concat (map (day_rows web (select_weather_observatory block_no) prec_no block_no)
       (takeWhile (day_ok web (select_weather_observatory block_no) prec_no block_no)
          (days start_date end_date))) \<and>
   ((\<forall>d\<in>set (days start_date end_date).
        day_ok web (select_weather_observatory block_no) prec_no block_no d) \<longrightarrow>
    written (create_csv_hour web prec_no block_no start_date end_date) =
      fields # concat (map (day_rows web (select_weather_observatory block_no) prec_no block_no)
        (days start_date end_date))) \<and>
   sorted_wrt date_lt (days start_date end_date) \<and>
   (\<forall>d. \<forall>r\<in>set (day_rows web (select_weather_observatory block_no) prec_no block_no d).
      \<exists>h v. r = [PyDate d, h, v]) \<and>
   (valid_date start_date \<longrightarrow>
     (\<forall>x. valid_date x \<longrightarrow>
        (x \<in> set (days start_date end_date) \<longleftrightarrow> date_le start_date x \<and> date_le x end_date)))"
proof -
  let ?ft = "select_weather_observatory block_no"
  let ?ok = "day_ok web ?ft prec_no block_no"
  have w: "written (create_csv_hour web prec_no block_no start_date end_date) =
     fields # concat (map (day_rows web ?ft prec_no block_no)
       (takeWhile ?ok (days start_date end_date)))"
    by (simp add: create_csv_hour_def Let_def loop_written)
  have all: "takeWhile ?ok (days start_date end_date) = days start_date end_date"
    if "\<forall>d\<in>set (days start_date end_date). ?ok d"
    using that by (simp add: takeWhile_eq_all_conv)
  have shape: "\<forall>d. \<forall>r\<in>set (day_rows web ?ft prec_no block_no d). \<exists>h v. r = [PyDate d, h, v]"
    by (blast dest: day_rows_shape)
  have range: "x \<in> set (days start_date end_date) \<longleftrightarrow> date_le start_date x \<and> date_le x end_date"
    if "valid_date start_date" "valid_date x" for x
    using that days_bounds [of x start_date end_date] days_complete [of start_date x end_date]
    by blast
  have w': "(\<forall>d\<in>set (days start_date end_date). ?ok d) \<longrightarrow>
    written (create_csv_hour web prec_no block_no start_date end_date) =
      fields # concat (map (day_rows web ?ft prec_no block_no) (days start_date end_date))"
  proof
    assume ok: "\<forall>d\<in>set (days start_date end_date). ?ok d"
    show "written (create_csv_hour web prec_no block_no start_date end_date) =
      fields # concat (map (day_rows web ?ft prec_no block_no) (days start_date end_date))"
      unfolding w all [OF ok] by (rule refl)
  qed
  from range have range': "valid_date start_date \<longrightarrow>
     (\<forall>x. valid_date x \<longrightarrow>
        (x \<in> set (days start_date end_date) \<longleftrightarrow> date_le start_date x \<and> date_le x end_date))"
    by blast
  from w w' days_sorted [of start_date end_date] shape range' show ?thesis
    by (intro conjI)
qed

theorem rows_grouped_by_day_in_page_order_witness:
  "list_all
     (day_ok (serve page_three_hours) (select_weather_observatory (str ''47662''))
        (str ''44'') (str ''47662''))
     (days (Date 2020 2 28) (Date 2020 3 1)) \<and>
   valid_date (Date 2020 2 28) \<and> valid_date (Date 2020 2 29) \<and>
   Date 2020 2 29 \<in> set (days (Date 2020 2 28) (Date 2020 3 1)) \<and>
   written (create_csv_hour (serve page_three_hours) (str ''44'') (str ''47662'')
              (Date 2020 2 28) (Date 2020 3 1)) =
     [fields,
      [PyDate (Date 2020 2 28), PyStr (str ''1''), PyFloat (Finite (1 / 2))],
      [PyDate (Date 2020 2 28), PyStr (str ''2''), PyInt 0],
      [PyDate (Date 2020 2 29), PyStr (str ''1''), PyFloat (Finite (1 / 2))],
      [PyDate (Date 2020 2 29), PyStr (str ''2''), PyInt 0],
      [PyDate (Date 2020 3 1), PyStr (str ''1''), PyFloat (Finite (1 / 2))],
      [PyDate (Date 2020 3 1), PyStr (str ''2''), PyInt 0]]"
proof -
  let ?web = "serve page_three_hours"
  let ?ft = "select_weather_observatory (str ''47662'')"
  have ok: "\<forall>d\<in>set (days (Date 2020 2 28) (Date 2020 3 1)).
      day_ok ?web ?ft (str ''44'') (str ''47662'') d"
    by (simp add: day_ok_iff select_47662 day_result_three_hours)
  have v1: "valid_date (Date 2020 2 28)"
    by (simp add: valid_date_def days_in_month_def is_leap_def)
  have v2: "valid_date (Date 2020 2 29)"
    by (simp add: valid_date_def days_in_month_def is_leap_def)
  have le: "date_le (Date 2020 2 28) (Date 2020 2 29) \<and> date_le (Date 2020 2 29) (Date 2020 3 1)"
    by (simp add: date_le_def)
  note inst = rows_grouped_by_day_in_page_order [of ?web "str ''44''" "str ''47662''" "Date 2020 2 28" "Date 2020 3 1"]
  from inst ok have w: "written (create_csv_hour ?web (str ''44'') (str ''47662'')
              (Date 2020 2 28) (Date 2020 3 1)) =
      fields # concat (map (day_rows ?web ?ft (str ''44'') (str ''47662''))
        (days (Date 2020 2 28) (Date 2020 3 1)))"
    by blast
  from inst v1 v2 le have m: "Date 2020 2 29 \<in> set (days (Date 2020 2 28) (Date 2020 3 1))"
    by blast
  have r: "day_rows ?web ?ft (str ''44'') (str ''47662'') d =
     [[PyDate d, PyStr (str ''1''), PyFloat (Finite (1 / 2))],
      [PyDate d, PyStr (str ''2''), PyInt 0]]" for d
    by (simp add: day_rows_def select_47662 day_result_three_hours)
  have "written (create_csv_hour ?web (str ''44'') (str ''47662'')
              (Date 2020 2 28) (Date 2020 3 1)) =
     [fields,
      [PyDate (Date 2020 2 28), PyStr (str ''1''), PyFloat (Finite (1 / 2))],
      [PyDate (Date 2020 2 28), PyStr (str ''2''), PyInt 0],
      [PyDate (Date 2020 2 29), PyStr (str ''1''), PyFloat (Finite (1 / 2))],
      [PyDate (Date 2020 2 29), PyStr (str ''2''), PyInt 0],
      [PyDate (Date 2020 3 1), PyStr (str ''1''), PyFloat (Finite (1 / 2))],
      [PyDate (Date 2020 3 1), PyStr (str ''2''), PyInt 0]]"
    unfolding w days_feb28_mar1 by (simp add: r)
  moreover from ok have "list_all (day_ok ?web ?ft (str ''44'') (str ''47662''))
      (days (Date 2020 2 28) (Date 2020 3 1))"
    unfolding list_all_iff .
  ultimately show ?thesis using v1 v2 m by blast
qed

text \<open>
  C7. When start and end date are the same, exactly one url is fetched and the file holds
  the header and the rows of that one day. When the start date is after the end date,
  nothing is fetched and the run ends normally with the header as the only row.
\<close>

theorem single_day_and_reversed_range:
  "fetched (create_csv_hour web prec_no block_no date date) =
     [target_url (select_weather_observatory block_no) prec_no block_no date] \<and>
   written (create_csv_hour web prec_no block_no date date) =
     fields # day_rows web (select_weather_observatory block_no) prec_no block_no date \<and>
   (\<not> date_le start_date end_date \<longrightarrow>
    create_csv_hour web prec_no block_no start_date end_date =
      \<lparr>written = [fields], closed = True, fetched = [], slept = 0, raised = None\<rparr>)"
proof -
  let ?ft = "select_weather_observatory block_no"
  have rows: "concat (map (day_rows web ?ft prec_no block_no)
      (takeWhile (day_ok web ?ft prec_no block_no) [date])) = day_rows web ?ft prec_no block_no date"
    by (cases "day_result web ?ft prec_no block_no date") (simp_all add: day_ok_def day_rows_def)
  have "fetched (create_csv_hour web prec_no block_no date date) = [target_url ?ft prec_no block_no date]"
    by (simp add: create_csv_hour_def Let_def loop_fetched days_same)
  moreover have "written (create_csv_hour web prec_no block_no date date) =
     fields # day_rows web ?ft prec_no block_no date"
    using rows by (simp add: create_csv_hour_def Let_def loop_written days_same)
  moreover have "create_csv_hour web prec_no block_no start_date end_date =
      \<lparr>written = [fields], closed = True, fetched = [], slept = 0, raised = None\<rparr>"
    if "\<not> date_le start_date end_date"
    using that by (simp add: create_csv_hour_def Let_def date_loop_stop)
  ultimately show ?thesis by simp
qed

theorem single_day_and_reversed_range_witness:
  "\<not> date_le (Date 2020 1 9) (Date 2020 1 7) \<and>
   create_csv_hour unreachable (str ''44'') (str ''47662'') (Date 2020 1 9) (Date 2020 1 7) =
      \<lparr>written = [fields], closed = True, fetched = [], slept = 0, raised = None\<rparr>"
proof -
  have a: "\<not> date_le (Date 2020 1 9) (Date 2020 1 7)"
    by (simp add: date_le_def)
  from single_day_and_reversed_range [of unreachable "str ''44''" "str ''47662''" "Date 2020 1 9" "Date 2020 1 9" "Date 2020 1 7"] a
  show ?thesis by blast
qed

text \<open>
  C8. When the extraction fails for day \<open>x\<close> after succeeding for the days \<open>pre\<close> before it,
  the run ends with that exception, no later day is fetched, and the file holds the header
  and the rows of the days \<open>pre\<close>.
\<close>

theorem failed_day_keeps_earlier_rows:
  assumes "days start_date end_date = pre @ x # rest"
    and "\<forall>y\<in>set pre. day_ok web (select_weather_observatory block_no) prec_no block_no y"
    and "day_result web (select_weather_observatory block_no) prec_no block_no x = Inl err"
  shows "create_csv_hour web prec_no block_no start_date end_date =
      \<lparr>written = fields # concat (map (day_rows web (select_weather_observatory block_no)
                                         prec_no block_no) pre),
       closed = True,
       fetched = map (target_url (select_weather_observatory block_no) prec_no block_no) (pre @ [x]),
       slept = Suc (length pre),
       raised = Some err\<rparr>"
proof -
  let ?ft = "select_weather_observatory block_no"
  let ?ok = "day_ok web ?ft prec_no block_no"
  let ?f = "\<lparr>written = [fields], closed = False, fetched = [], slept = 0, raised = None\<rparr>"
  let ?r = "date_loop web ?ft prec_no block_no start_date end_date ?f"
  from assms(3) have "\<not> ?ok x" by (simp add: day_ok_iff)
  with assms(1,2) have tw: "takeWhile ?ok (days start_date end_date) = pre"
    by (simp add: takeWhile_append2)
  have "written ?r = fields # concat (map (day_rows web ?ft prec_no block_no) pre)"
    by (simp add: loop_written tw)
  moreover have "fetched ?r = map (target_url ?ft prec_no block_no) (pre @ [x])"
    unfolding loop_fetched tw by (simp add: assms(1))
  moreover have "slept ?r = Suc (length pre)"
    unfolding loop_slept tw by (simp add: assms(1))
  moreover have "raised ?r = Some err"
    using assms by (rule loop_raised_fail)
  moreover have "closed ?r = False"
    by (simp add: loop_closed)
  ultimately show ?thesis
    by (simp add: create_csv_hour_def Let_def)
qed

theorem failed_day_keeps_earlier_rows_witness:
  "days (Date 2020 1 7) (Date 2020 1 9) = [Date 2020 1 7] @ Date 2020 1 8 # [Date 2020 1 9] \<and>
   day_ok (serve_only example_url page_three_hours)
     (select_weather_observatory (str ''47662'')) (str ''44'') (str ''47662'') (Date 2020 1 7) \<and>
   day_result (serve_only example_url page_three_hours)
     (select_weather_observatory (str ''47662'')) (str ''44'') (str ''47662'') (Date 2020 1 8)
     = Inl URLError \<and>
   create_csv_hour (serve_only example_url page_three_hours) (str ''44'') (str ''47662'')
       (Date 2020 1 7) (Date 2020 1 9) =
     \<lparr>written =
        [fields,
         [PyDate (Date 2020 1 7), PyStr (str ''1''), PyFloat (Finite (1 / 2))],
         [PyDate (Date 2020 1 7), PyStr (str ''2''), PyInt 0]],
      closed = True,
      fetched = [target_url (Some (str ''s1'')) (str ''44'') (str ''47662'') (Date 2020 1 7),
                 target_url (Some (str ''s1'')) (str ''44'') (str ''47662'') (Date 2020 1 8)],
      slept = 2,
      raised = Some URLError\<rparr>"
proof -
  let ?web = "serve_only example_url page_three_hours"
  let ?ft = "select_weather_observatory (str ''47662'')"
  have a: "days (Date 2020 1 7) (Date 2020 1 9) = [Date 2020 1 7] @ Date 2020 1 8 # [Date 2020 1 9]"
    unfolding days_jan7_jan9 by simp
  have r7: "day_result ?web ?ft (str ''44'') (str ''47662'') (Date 2020 1 7) =
     Inr [[PyDate (Date 2020 1 7), PyStr (str ''1''), PyFloat (Finite (1 / 2))],
          [PyDate (Date 2020 1 7), PyStr (str ''2''), PyInt 0]]"
    unfolding select_47662
    by (subst day_result_table [of _ _ _ _ _ page_three_hours])
       (simp_all add: serve_only_def example_url_def rows_three_hours)
  then have b: "\<forall>y\<in>set [Date 2020 1 7]. day_ok ?web ?ft (str ''44'') (str ''47662'') y"
    by (simp add: day_ok_iff)
  have c: "day_result ?web ?ft (str ''44'') (str ''47662'') (Date 2020 1 8) = Inl URLError"
    by (simp add: day_result_def scraping_day_per_hour_def serve_only_def example_url_def
        select_47662 url_jan8)
  from b have b': "day_ok ?web ?ft (str ''44'') (str ''47662'') (Date 2020 1 7)"
    by simp
  from failed_day_keeps_earlier_rows [OF a b c] r7
  have "create_csv_hour ?web (str ''44'') (str ''47662'') (Date 2020 1 7) (Date 2020 1 9) =
     \<lparr>written =
        [fields,
         [PyDate (Date 2020 1 7), PyStr (str ''1''), PyFloat (Finite (1 / 2))],
         [PyDate (Date 2020 1 7), PyStr (str ''2''), PyInt 0]],
      closed = True,
      fetched = [target_url (Some (str ''s1'')) (str ''44'') (str ''47662'') (Date 2020 1 7),
                 target_url (Some (str ''s1'')) (str ''44'') (str ''47662'') (Date 2020 1 8)],
      slept = 2,
      raised = Some URLError\<rparr>"
    by (simp add: day_rows_def select_47662)
  with a b' c show ?thesis by blast
qed

text \<open>
  C10, as stated, fails: with a layout variant that is neither \<^verbatim>\<open>"s1"\<close> nor \<^verbatim>\<open>"a1"\<close>, a fetched
  page without the data table still makes the day extractor raise, and the run for a
  three-character station code ends with that exception.
\<close>

theorem unknown_variant_without_table_raises:
  "scraping_day_per_hour no_table example_url (Date 2020 1 7) None = Inl AttributeError \<and>
   raised (create_csv_hour no_table (str ''44'') (str ''123'') (Date 2020 1 7) (Date 2020 1 7))
     = Some AttributeError"
proof -
  have le: "date_le (Date 2020 1 7) (Date 2020 1 7)"
    by (rule date_le_refl)
  have r: "day_result no_table ft p b d = Inl AttributeError" for ft p b d
    by (simp add: day_result_def scraping_day_per_hour_def no_table_def)
  have "raised (create_csv_hour no_table (str ''44'') (str ''123'') (Date 2020 1 7) (Date 2020 1 7))
     = Some AttributeError"
    unfolding create_csv_hour_def Let_def date_loop_fail [OF le r] by simp
  then show ?thesis
    by (simp add: scraping_day_per_hour_def no_table_def)
qed

text \<open>
  C10, amended. With a layout variant that is neither \<^verbatim>\<open>"s1"\<close> nor \<^verbatim>\<open>"a1"\<close> the day extractor
  returns the empty sequence for every fetched page that has the data table. For a station
  code whose length is neither 4 nor 5, when every day's page is fetched and has the table
  and the end date is before 9999-12-31, the run ends normally with a header-only file.
\<close>

theorem unknown_variant_gives_header_only_file:
  "(facility_type \<noteq> Some (str ''s1'') \<and> facility_type \<noteq> Some (str ''a1'') \<and>
    web url = Document (Some trs) \<longrightarrow>
    scraping_day_per_hour web url date facility_type = Inr []) \<and>
   (length block_no \<noteq> 4 \<and> length block_no \<noteq> 5 \<and>
    (\<forall>d\<in>set (days start_date end_date).
       \<exists>trs. web (target_url None prec_no block_no d) = Document (Some trs)) \<and>
    date_lt end_date (Date 9999 12 31) \<longrightarrow>
    create_csv_hour web prec_no block_no start_date end_date =
      \<lparr>written = [fields], closed = True,
       fetched = map (target_url None prec_no block_no) (days start_date end_date),
       slept = length (days start_date end_date), raised = None\<rparr>)"
proof (intro conjI impI)
  assume "facility_type \<noteq> Some (str ''s1'') \<and> facility_type \<noteq> Some (str ''a1'') \<and>
    web url = Document (Some trs)"
  then show "scraping_day_per_hour web url date facility_type = Inr []"
    by (simp add: scraping_day_per_hour_def rows_loop_other target_index_None)
next
  assume a: "length block_no \<noteq> 4 \<and> length block_no \<noteq> 5 \<and>
    (\<forall>d\<in>set (days start_date end_date).
       \<exists>trs. web (target_url None prec_no block_no d) = Document (Some trs)) \<and>
    date_lt end_date (Date 9999 12 31)"
  let ?ok = "day_ok web None prec_no block_no"
  let ?f = "\<lparr>written = [fields], closed = False, fetched = [], slept = 0, raised = None\<rparr>"
  let ?r = "date_loop web None prec_no block_no start_date end_date ?f"
  from a have ft: "select_weather_observatory block_no = None"
    by (simp add: select_other)
  have res: "day_result web None prec_no block_no d = Inr []"
    if "d \<in> set (days start_date end_date)" for d
  proof -
    from a that obtain trs where "web (target_url None prec_no block_no d) = Document (Some trs)"
      by blast
    then show ?thesis
      by (simp add: day_result_table rows_loop_other target_index_def)
  qed
  then have ok: "\<forall>d\<in>set (days start_date end_date). ?ok d"
    by (simp add: day_ok_iff)
  then have tw: "takeWhile ?ok (days start_date end_date) = days start_date end_date"
    by (simp add: takeWhile_eq_all_conv)
  have "concat (map (day_rows web None prec_no block_no) (days start_date end_date)) = []"
    using res by (simp add: day_rows_def)
  then have "written ?r = [fields]"
    by (simp add: loop_written tw)
  moreover have "fetched ?r = map (target_url None prec_no block_no) (days start_date end_date)"
    by (simp add: loop_fetched tw)
  moreover have "slept ?r = length (days start_date end_date)"
    by (simp add: loop_slept tw)
  moreover have "raised ?r = None"
    using ok a by (simp add: loop_raised_ok)
  moreover have "closed ?r = False"
    by (simp add: loop_closed)
  ultimately show "create_csv_hour web prec_no block_no start_date end_date =
      \<lparr>written = [fields], closed = True,
       fetched = map (target_url None prec_no block_no) (days start_date end_date),
       slept = length (days start_date end_date), raised = None\<rparr>"
    by (simp add: create_csv_hour_def Let_def ft)
qed

theorem unknown_variant_gives_header_only_file_witness:
  "(None \<noteq> Some (str ''s1'') \<and> None \<noteq> Some (str ''a1'') \<and>
    serve page_three_hours example_url = Document (Some page_three_hours)) \<and>
   scraping_day_per_hour (serve page_three_hours) example_url (Date 2020 1 7) None = Inr [] \<and>
   (length (str ''123'') \<noteq> 4 \<and> length (str ''123'') \<noteq> 5 \<and>
    list_all
      (\<lambda>d. serve page_three_hours (target_url None (str ''44'') (str ''123'') d)
         = Document (Some page_three_hours))
      (days (Date 2020 1 7) (Date 2020 1 9)) \<and>
    date_lt (Date 2020 1 9) (Date 9999 12 31)) \<and>
   create_csv_hour (serve page_three_hours) (str ''44'') (str ''123'')
       (Date 2020 1 7) (Date 2020 1 9) =
     \<lparr>written = [fields], closed = True,
      fetched = map (target_url None (str ''44'') (str ''123''))
                  [Date 2020 1 7, Date 2020 1 8, Date 2020 1 9],
      slept = 3, raised = None\<rparr>"
proof -
  have a: "(None::pystr option) \<noteq> Some (str ''s1'') \<and> None \<noteq> Some (str ''a1'') \<and>
    serve page_three_hours example_url = Document (Some page_three_hours)"
    by (simp add: serve_def)
  have b: "length (str ''123'') \<noteq> 4 \<and> length (str ''123'') \<noteq> 5 \<and>
    (\<forall>d\<in>set (days (Date 2020 1 7) (Date 2020 1 9)).
       \<exists>trs. serve page_three_hours (target_url None (str ''44'') (str ''123'') d)
         = Document (Some trs)) \<and>
    date_lt (Date 2020 1 9) (Date 9999 12 31)"
    by (simp add: length_str serve_def date_lt_def date_le_def)
  note inst = unknown_variant_gives_header_only_file [of None "serve page_three_hours" example_url page_three_hours "Date 2020 1 7"
      "str ''123''" "Date 2020 1 7" "Date 2020 1 9" "str ''44''"]
  from inst a have c: "scraping_day_per_hour (serve page_three_hours) example_url (Date 2020 1 7) None
      = Inr []"
    by blast
  from inst b have d: "create_csv_hour (serve page_three_hours) (str ''44'') (str ''123'')
       (Date 2020 1 7) (Date 2020 1 9) =
     \<lparr>written = [fields], closed = True,
      fetched = map (target_url None (str ''44'') (str ''123'')) (days (Date 2020 1 7) (Date 2020 1 9)),
      slept = length (days (Date 2020 1 7) (Date 2020 1 9)), raised = None\<rparr>"
    by blast
  have e: "length (str ''123'') \<noteq> 4 \<and> length (str ''123'') \<noteq> 5 \<and>
    list_all
      (\<lambda>d. serve page_three_hours (target_url None (str ''44'') (str ''123'') d)
         = Document (Some page_three_hours))
      (days (Date 2020 1 7) (Date 2020 1 9)) \<and>
    date_lt (Date 2020 1 9) (Date 9999 12 31)"
    by (simp add: length_str serve_def date_lt_def date_le_def list_all_iff)
  from d have "create_csv_hour (serve page_three_hours) (str ''44'') (str ''123'')
       (Date 2020 1 7) (Date 2020 1 9) =
     \<lparr>written = [fields], closed = True,
      fetched = map (target_url None (str ''44'') (str ''123''))
                  [Date 2020 1 7, Date 2020 1 8, Date 2020 1 9],
      slept = 3, raised = None\<rparr>"
    unfolding days_jan7_jan9 by simp
  with a c e show ?thesis by blast
qed

text \<open>
  C9, as stated, fails: when every fetch fails, the run ends with the exception and the
  file is closed all the same.
\<close>

theorem failed_run_closes_file:
  "raised (create_csv_hour unreachable (str ''44'') (str ''47662'') (Date 2020 1 7) (Date 2020 1 9))
     = Some URLError \<and>
   closed (create_csv_hour unreachable (str ''44'') (str ''47662'') (Date 2020 1 7) (Date 2020 1 9))"
proof -
  have le: "date_le (Date 2020 1 7) (Date 2020 1 9)"
    by (simp add: date_le_def)
  show ?thesis
    unfolding create_csv_hour_def Let_def date_loop_fail [OF le day_result_unreachable]
    by simp
qed

text \<open>
  C9, amended. The file is closed when \<open>create_csv_hour\<close> is left, whether the loop ended
  or an exception went through it: the \<^verbatim>\<open>with\<close> statement closes it on both paths.
\<close>

theorem create_csv_hour_closes_file:
  "closed (create_csv_hour web prec_no block_no start_date end_date)"
  by (simp add: create_csv_hour_def Let_def)

end
